theory Spec2Isabelle
  imports Complex_Main
begin

section \<open>JavaScript values used by the components\<close>

text \<open>
  Reading an array element: \<open>xs[i]\<close> is \<open>undefined\<close> (here \<open>None\<close>) when \<open>i\<close> is not an
  index of the array.
\<close>

definition array_get :: "'a list \<Rightarrow> nat \<Rightarrow> 'a option" where
  "array_get xs i = (if i < length xs then Some (xs ! i) else None)"

text \<open>\<open>String(n)\<close> for an integer \<open>n\<close>: its decimal digits, with a minus sign when negative.\<close>

function String_nat :: "nat \<Rightarrow> string" where
  "String_nat n =
     (if n < 10 then [''0123456789'' ! n]
      else String_nat (n div 10) @ [''0123456789'' ! (n mod 10)])"
  by pat_completeness auto
termination
  by (relation "measure (\<lambda>n. n)") auto

declare String_nat.simps [simp del]

definition String_int :: "int \<Rightarrow> string" where
  "String_int i = (if i < 0 then CHR ''-'' # String_nat (nat (- i)) else String_nat (nat i))"

section \<open>Breadcrumb timeline (static/app/views/userJourneys/timeline.tsx)\<close>

text \<open>
  A breadcrumb, with the fields the timeline reads. The category may be missing. The type of
  the timestamp is left open: the timeline only hands it to the date library, whose
  \<open>moment(t).format(keyFormat)\<close> is the parameter \<open>fmt\<close> of the functions below.
\<close>

record 'ts Crumb =
  crumb_id :: int
  crumb_type :: string
  crumb_color :: string
  crumb_category :: "string option"
  crumb_timestamp :: 'ts

record 'ts CrumbGroup =
  active :: bool
  crumbs :: "'ts Crumb list"
  timestamp :: string

definition NOTABLE_CATEGORIES :: "string list" where
  "NOTABLE_CATEGORIES =
     [''ui.click'', ''navigation'', ''sentry.event'', ''sentry.transaction'',
      ''selection'', ''app.lifecycle'', ''click'']"

text \<open>
  The callback of \<open>crumbs.filter\<close> in \<open>extractHighlights\<close>: a missing or empty category is
  falsy and rejected before the membership test.
\<close>

definition relevant :: "'ts Crumb \<Rightarrow> bool" where
  "relevant crumb =
     (case crumb_category crumb of
        None \<Rightarrow> False
      | Some category \<Rightarrow>
          if category = [] then False else category \<in> set NOTABLE_CATEGORIES)"

text \<open>
  The object \<open>mapping\<close> is an association list in insertion order. \<open>mapping_push\<close> is lines
  108 to 111: a key that is not yet there gets an empty array first, then the crumb is pushed
  on the key's array. The keys are dates printed by the pattern \<open>YYYY-MM-DDTHH:mm:ss\<close>, so
  none of them is an array index or a property inherited by every object, and
  \<open>Object.entries\<close> lists them in insertion order.
\<close>

fun mapping_push :: "(string \<times> 'a list) list \<Rightarrow> string \<Rightarrow> 'a \<Rightarrow> (string \<times> 'a list) list" where
  "mapping_push [] k c = [(k, [c])]"
| "mapping_push ((k', v) # m) k c =
     (if k' = k then (k', v @ [c]) # m else (k', v) # mapping_push m k c)"

text \<open>The body of \<open>relevant.forEach\<close>: an empty key is falsy and the crumb is skipped.\<close>

definition add_crumb ::
  "('ts \<Rightarrow> string) \<Rightarrow> (string \<times> 'ts Crumb list) list \<Rightarrow> 'ts Crumb \<Rightarrow> (string \<times> 'ts Crumb list) list"
where
  "add_crumb fmt m crumb =
     (let ts = fmt (crumb_timestamp crumb)
      in if ts = [] then m else mapping_push m ts crumb)"

text \<open>Lines 102 to 112: the mapping starts empty and takes the relevant crumbs in order.\<close>

definition build_mapping ::
  "('ts \<Rightarrow> string) \<Rightarrow> 'ts Crumb list \<Rightarrow> (string \<times> 'ts Crumb list) list"
where
  "build_mapping fmt rel = foldl (add_crumb fmt) [] rel"

text \<open>
  \<open>activeTime\<close> is \<open>null\<close> (here \<open>None\<close>) without an active crumb, and \<open>null === key\<close> is
  false for every key.
\<close>

definition extractHighlights ::
  "('ts \<Rightarrow> string) \<Rightarrow> 'ts Crumb list \<Rightarrow> 'ts Crumb option \<Rightarrow> 'ts CrumbGroup list"
where
  "extractHighlights fmt cs act =
     (let rel = filter relevant cs;
          mapping = build_mapping fmt rel;
          activeTime = (case act of Some a \<Rightarrow> Some (fmt (crumb_timestamp a)) | None \<Rightarrow> None)
      in map (\<lambda>(key, val). \<lparr>active = (activeTime = Some key), crumbs = val, timestamp = key\<rparr>)
           mapping)"

text \<open>The \<open>IconWrapper\<close> element that \<open>CrumbItem\<close> pushes for a crumb.\<close>

record IconWrapper =
  icon_key :: string
  icon_color :: string
  icon_offset :: nat
  icon_id :: string
  icon_type :: string

definition make_icon :: "'ts Crumb \<Rightarrow> nat \<Rightarrow> nat \<Rightarrow> IconWrapper" where
  "make_icon crumb i n =
     \<lparr>icon_key = crumb_type crumb @ ''-'' @ String_nat i,
      icon_color = crumb_color crumb,
      icon_offset = n,
      icon_id = ''timeline-'' @ crumb_type crumb @ ''-'' @ String_int (crumb_id crumb),
      icon_type = crumb_type crumb\<rparr>"

text \<open>
  The while loop of \<open>CrumbItem\<close>, with its variables \<open>icons\<close> and \<open>i\<close> as arguments. A crumb
  is an object, so it is truthy whenever it is there; \<open>break\<close> returns the icons.
\<close>

function icons_loop :: "'ts Crumb list \<Rightarrow> IconWrapper list \<Rightarrow> nat \<Rightarrow> IconWrapper list" where
  "icons_loop cs icons i =
     (if length icons < 5 \<or> array_get cs i = None then
        (case array_get cs i of
           Some crumb \<Rightarrow> icons_loop cs (icons @ [make_icon crumb i (length icons)]) (i + 1)
         | None \<Rightarrow> icons)
      else icons)"
  by pat_completeness auto
termination
  by (relation "measure (\<lambda>(cs, icons, i). length cs - i)")
     (auto simp: array_get_def split: if_splits)

declare icons_loop.simps [simp del]

record CrumbItem_view =
  item_icons :: "IconWrapper list"
  item_active :: bool
  item_time :: string

text \<open>\<open>fmt_time\<close> is the date library's \<open>moment(s).format('HH:mm:ss')\<close>.\<close>

definition CrumbItem :: "(string \<Rightarrow> string) \<Rightarrow> 'ts CrumbGroup \<Rightarrow> CrumbItem_view" where
  "CrumbItem fmt_time grp =
     \<lparr>item_icons = icons_loop (crumbs grp) [] 0,
      item_active = active grp,
      item_time = fmt_time (timestamp grp)\<rparr>"

section \<open>Selected frame renderer (static/app/utils/profiling/renderers/selectedFrameRenderer.tsx)\<close>

text \<open>
  A rectangle with its four coordinates. JavaScript numbers are doubles; the model computes
  with real numbers, so it gives the formulas that the code evaluates and not the rounding of
  each operation.
\<close>

record Rect =
  rect_x :: real
  rect_y :: real
  rect_width :: real
  rect_height :: real

text \<open>
  Modelled from the spec: the class \<open>Rect\<close> of \<open>../gl/utils\<close> is not among the sources.
  \<open>withWidth\<close> and \<open>withHeight\<close> return the rectangle with the given width or height and
  everything else unchanged. \<open>translate\<close> returns the rectangle of the same size whose origin
  is the given point: \<open>draw\<close> hands it the frame's own origin plus half the border width, and
  the rectangle it strokes has that origin.
\<close>

definition withWidth :: "Rect \<Rightarrow> real \<Rightarrow> Rect" where
  "withWidth r w = r\<lparr>rect_width := w\<rparr>"

definition withHeight :: "Rect \<Rightarrow> real \<Rightarrow> Rect" where
  "withHeight r h = r\<lparr>rect_height := h\<rparr>"

definition translate :: "Rect \<Rightarrow> real \<Rightarrow> real \<Rightarrow> Rect" where
  "translate r x y = r\<lparr>rect_x := x, rect_y := y\<rparr>"

text \<open>
  What \<open>draw\<close> does to a canvas context, in order: the assignments to \<open>strokeStyle\<close> and
  \<open>lineWidth\<close> and the calls of \<open>beginPath\<close> and \<open>strokeRect\<close>. A context is the list of the
  operations it has received, oldest first.
\<close>

datatype canvas_op =
  SetStrokeStyle string
| SetLineWidth real
| BeginPath
| StrokeRect real real real real

type_synonym CanvasRenderingContext2D = "canvas_op list"

record frame_style =
  BORDER_COLOR :: string
  BORDER_WIDTH :: real

record 'c SelectedFrameRenderer =
  renderer_canvas :: 'c
  renderer_context :: CanvasRenderingContext2D

text \<open>The constant \<open>borderRect\<close> of the loop body, from the frame in physical space.\<close>

definition borderRect :: "frame_style \<Rightarrow> Rect \<Rightarrow> Rect" where
  "borderRect style frameInPhysicalSpace =
     translate
       (withHeight
          (withWidth frameInPhysicalSpace (rect_width frameInPhysicalSpace - BORDER_WIDTH style))
          (rect_height frameInPhysicalSpace - BORDER_WIDTH style))
       (rect_x frameInPhysicalSpace + BORDER_WIDTH style / 2)
       (rect_y frameInPhysicalSpace + BORDER_WIDTH style / 2)"

text \<open>
  The for loop of \<open>draw\<close>, with its index \<open>i\<close> and the context as arguments.
  \<open>transformRect\<close> is the method of \<open>Rect\<close> that applies the matrix; it is a parameter.
\<close>

function draw_loop ::
  "(Rect \<Rightarrow> 'm \<Rightarrow> Rect) \<Rightarrow> Rect list \<Rightarrow> frame_style \<Rightarrow> 'm \<Rightarrow> nat \<Rightarrow>
   CanvasRenderingContext2D \<Rightarrow> CanvasRenderingContext2D"
where
  "draw_loop transformRect frames style configViewToPhysicalSpace i ctx =
     (if i < length frames then
        (let frameInPhysicalSpace = transformRect (frames ! i) configViewToPhysicalSpace;
             b = borderRect style frameInPhysicalSpace
         in draw_loop transformRect frames style configViewToPhysicalSpace (i + 1)
              (ctx @ [BeginPath,
                      StrokeRect (rect_x b) (rect_y b) (rect_width b) (rect_height b)]))
      else ctx)"
  by pat_completeness auto
termination
  by (relation "measure (\<lambda>(t, frames, style, m, i, ctx). length frames - i)") auto

declare draw_loop.simps [simp del]

text \<open>
  \<open>draw\<close>: the context is the one passed, or the renderer's own when none is passed. The
  result is that context after the call.
\<close>

definition draw ::
  "(Rect \<Rightarrow> 'm \<Rightarrow> Rect) \<Rightarrow> 'c SelectedFrameRenderer \<Rightarrow> Rect list \<Rightarrow> frame_style \<Rightarrow> 'm \<Rightarrow>
   CanvasRenderingContext2D option \<Rightarrow> CanvasRenderingContext2D"
where
  "draw transformRect this frames style configViewToPhysicalSpace context =
     (let ctx = (case context of None \<Rightarrow> renderer_context this | Some c \<Rightarrow> c);
          ctx = ctx @ [SetStrokeStyle (BORDER_COLOR style)];
          ctx = ctx @ [SetLineWidth (BORDER_WIDTH style)]
      in draw_loop transformRect frames style configViewToPhysicalSpace 0 ctx)"

text \<open>The rectangles stroked by a sequence of canvas operations, in order.\<close>

fun stroked_rects :: "canvas_op list \<Rightarrow> Rect list" where
  "stroked_rects [] = []"
| "stroked_rects (StrokeRect x y w h # ops) =
     \<lparr>rect_x = x, rect_y = y, rect_width = w, rect_height = h\<rparr> # stroked_rects ops"
| "stroked_rects (_ # ops) = stroked_rects ops"

section \<open>File field (static/app/components/forms/fileField.tsx)\<close>

text \<open>
  \<open>"abc".split(sep)\<close> for a separator of one character: the pieces between the separators;
  a string without separator is the only piece.
\<close>

fun split :: "char \<Rightarrow> string \<Rightarrow> string list" where
  "split sep [] = [[]]"
| "split sep (c # cs) =
     (if c = sep then [] # split sep cs
      else (case split sep cs of
              [] \<Rightarrow> [[c]]
            | w # ws \<Rightarrow> (c # w) # ws))"




datatype js_error = TypeError string
















section \<open>JSON form (the tests of \<open>sentry/components/forms/jsonForm\<close>)\<close>

text \<open>
  The values that the \<open>visible\<close> functions of the tests read: \<open>undefined\<close>, booleans, strings
  and objects with named properties. Reading a property of \<open>undefined\<close> throws the
  \<open>TypeError\<close> whose message the tests expect; reading a property that an object does not
  have gives \<open>undefined\<close>.
\<close>

datatype js_value =
  JUndefined
| JBool bool
| JString string
| JObject "(string \<times> js_value) list"

type_synonym js_props = "(string \<times> js_value) list"

fun get_prop :: "js_value \<Rightarrow> string \<Rightarrow> js_error + js_value" where
  "get_prop JUndefined k =
     Inl (TypeError (''Cannot read properties of undefined (reading '' @ [CHR 0x27] @ k
                     @ [CHR 0x27] @ '')''))"
| "get_prop (JObject ps) k = Inr (case map_of ps k of None \<Rightarrow> JUndefined | Some v \<Rightarrow> v)"
| "get_prop (JBool b) k = Inr JUndefined"
| "get_prop (JString s) k = Inr JUndefined"

fun truthy :: "js_value \<Rightarrow> bool" where
  "truthy JUndefined = False"
| "truthy (JBool b) = b"
| "truthy (JString s) = (s \<noteq> [])"
| "truthy (JObject ps) = True"

definition prop_of :: "js_props \<Rightarrow> string \<Rightarrow> js_value" where
  "prop_of props k = (case map_of props k of None \<Rightarrow> JUndefined | Some v \<Rightarrow> v)"

text \<open>
  A \<open>visible\<close> function of the shape that the tests use, \<open>({test}) => !!test.email\<close>: it takes
  the property \<open>k\<close> of the object it is given and reads the property \<open>p\<close> of that.
\<close>

definition visible_reads :: "string \<Rightarrow> string \<Rightarrow> js_props \<Rightarrow> js_error + bool" where
  "visible_reads k p props =
     (case get_prop (prop_of props k) p of
        Inl err \<Rightarrow> Inl err
      | Inr v \<Rightarrow> Inr (truthy v))"

text \<open>
  A field descriptor with its \<open>visible\<close> property: absent, a boolean, or a function of the
  properties handed to the field, which may throw. The form is given by the property \<open>forms\<close>
  (groups of fields with a title) or by the property \<open>fields\<close>.
\<close>

datatype visible = VisibleBool bool | VisibleFun "js_props \<Rightarrow> js_error + bool"

record Field =
  field_name :: string
  field_visible :: "visible option"

record FieldGroup =
  group_title :: string
  group_fields :: "Field list"

record 'r JsonForm_props =
  forms_prop :: "FieldGroup list option"
  fields_prop :: "Field list option"
  additionalFieldProps :: "js_props option"
  renderHeader :: "'r option"
  renderFooter :: "'r option"

record 'r FormPanel =
  panel_title :: "string option"
  panel_inputs :: "string list"
  panel_header :: "'r option"
  panel_footer :: "'r option"

text \<open>
  Modelled from the spec: the component \<open>JsonForm\<close> is not among the sources, only its tests
  are. A field without \<open>visible\<close> property is visible; a boolean is taken as it is; a function
  is applied to the additional field properties (to no property at all when they are not
  supplied), and what it throws leaves the render. The panel of a form is omitted when none
  of its fields is visible and neither \<open>renderHeader\<close> nor \<open>renderFooter\<close> is passed; otherwise
  the panel holds one input for every visible field.
\<close>

definition eval_visible :: "js_props \<Rightarrow> Field \<Rightarrow> js_error + bool" where
  "eval_visible props field =
     (case field_visible field of
        None \<Rightarrow> Inr True
      | Some (VisibleBool b) \<Rightarrow> Inr b
      | Some (VisibleFun f) \<Rightarrow> f props)"

fun visible_fields :: "js_props \<Rightarrow> Field list \<Rightarrow> js_error + Field list" where
  "visible_fields props [] = Inr []"
| "visible_fields props (field # rest) =
     (case eval_visible props field of
        Inl err \<Rightarrow> Inl err
      | Inr v \<Rightarrow>
          (case visible_fields props rest of
             Inl err \<Rightarrow> Inl err
           | Inr vs \<Rightarrow> Inr (if v then field # vs else vs)))"

definition renderForm ::
  "js_props \<Rightarrow> 'r option \<Rightarrow> 'r option \<Rightarrow> string option \<Rightarrow> Field list \<Rightarrow>
   js_error + 'r FormPanel option"
where
  "renderForm props header footer title fs =
     (case visible_fields props fs of
        Inl err \<Rightarrow> Inl err
      | Inr vs \<Rightarrow>
          if vs = [] \<and> header = None \<and> footer = None then Inr None
          else Inr (Some \<lparr>panel_title = title, panel_inputs = map field_name vs,
                          panel_header = header, panel_footer = footer\<rparr>))"

fun renderForms ::
  "js_props \<Rightarrow> 'r option \<Rightarrow> 'r option \<Rightarrow> FieldGroup list \<Rightarrow> js_error + 'r FormPanel list"
where
  "renderForms props header footer [] = Inr []"
| "renderForms props header footer (form # rest) =
     (case renderForm props header footer (Some (group_title form)) (group_fields form) of
        Inl err \<Rightarrow> Inl err
      | Inr panel \<Rightarrow>
          (case renderForms props header footer rest of
             Inl err \<Rightarrow> Inl err
           | Inr panels \<Rightarrow>
               Inr (case panel of None \<Rightarrow> panels | Some p \<Rightarrow> p # panels)))"

definition JsonForm :: "'r JsonForm_props \<Rightarrow> js_error + 'r FormPanel list" where
  "JsonForm props =
     (let fieldProps = (case additionalFieldProps props of None \<Rightarrow> [] | Some ps \<Rightarrow> ps)
      in case forms_prop props of
           Some fms \<Rightarrow> renderForms fieldProps (renderHeader props) (renderFooter props) fms
         | None \<Rightarrow>
             (case fields_prop props of
                None \<Rightarrow> Inr []
              | Some fs \<Rightarrow>
                  (case renderForm fieldProps (renderHeader props) (renderFooter props) None fs of
                     Inl err \<Rightarrow> Inl err
                   | Inr None \<Rightarrow> Inr []
                   | Inr (Some p) \<Rightarrow> Inr [p])))"

text \<open>The field descriptors of a form, and the properties that their functions receive.\<close>

definition form_fields :: "'r JsonForm_props \<Rightarrow> Field list" where
  "form_fields props =
     (case forms_prop props of
        Some fms \<Rightarrow> concat (map group_fields fms)
      | None \<Rightarrow> (case fields_prop props of None \<Rightarrow> [] | Some fs \<Rightarrow> fs))"

definition field_props :: "'r JsonForm_props \<Rightarrow> js_props" where
  "field_props props = (case additionalFieldProps props of None \<Rightarrow> [] | Some ps \<Rightarrow> ps)"

section \<open>Custom performance metrics (the tests of \<open>eventCustomPerformanceMetrics\<close>)\<close>





section \<open>Properties of the breadcrumb timeline\<close>

subsection \<open>The icon loop of \<open>CrumbItem\<close>\<close>

lemma icons_loop_eq:
  "length icons = i \<Longrightarrow>
   icons_loop cs icons i = icons @ map (\<lambda>j. make_icon (cs ! j) j j) [i..<min 5 (length cs)]"
proof (induction cs icons i rule: icons_loop.induct)
  case (1 cs icons i)
  show ?case
  proof (cases "i < length cs \<and> i < 5")
    case True
    then have get: "array_get cs i = Some (cs ! i)"
      by (simp add: array_get_def)
    have "icons_loop cs icons i =
            icons_loop cs (icons @ [make_icon (cs ! i) i (length icons)]) (i + 1)"
      using True get "1.prems" by (subst icons_loop.simps) simp
    also have "\<dots> = (icons @ [make_icon (cs ! i) i i]) @
                     map (\<lambda>j. make_icon (cs ! j) j j) [i + 1..<min 5 (length cs)]"
      using "1.IH" [OF _ get] True "1.prems" by simp
    also have "\<dots> = icons @ map (\<lambda>j. make_icon (cs ! j) j j) [i..<min 5 (length cs)]"
      using True by (simp add: upt_conv_Cons)
    finally show ?thesis .
  next
    case False
    then have "icons_loop cs icons i = icons"
      using "1.prems" by (subst icons_loop.simps) (auto simp: array_get_def)
    moreover have "[i..<min 5 (length cs)] = []"
      using False by auto
    ultimately show ?thesis by simp
  qed
qed

lemma enumerate_take_map:
  "map (\<lambda>(j, c). f c j) (enumerate 0 (take n cs)) =
   map (\<lambda>j. f (cs ! j) j) [0..<min n (length cs)]"
proof (rule nth_equalityI)
  show "length (map (\<lambda>(j, c). f c j) (enumerate 0 (take n cs))) =
        length (map (\<lambda>j. f (cs ! j) j) [0..<min n (length cs)])"
    by (simp add: min.commute)
next
  fix i
  assume "i < length (map (\<lambda>(j, c). f c j) (enumerate 0 (take n cs)))"
  then have "i < n" and "i < length cs" by simp_all
  then show "map (\<lambda>(j, c). f c j) (enumerate 0 (take n cs)) ! i =
             map (\<lambda>j. f (cs ! j) j) [0..<min n (length cs)] ! i"
    by (simp add: nth_enumerate_eq)
qed

text \<open>
  Claim C8. The loop of \<open>CrumbItem\<close> is a total function (its termination is proved with the
  definition), and for every group it returns exactly \<open>min 5 n\<close> icons, where \<open>n\<close> is the
  number of crumbs of the group: the icon at position \<open>j\<close> is the one built from the \<open>j\<close>-th
  crumb, so the icons come from the first five crumbs, in their order.
\<close>

theorem CrumbItem_icons_first_five:
  "item_icons (CrumbItem fmt_time grp) =
     map (\<lambda>(j, crumb). make_icon crumb j j) (enumerate 0 (take 5 (crumbs grp)))
   \<and> length (item_icons (CrumbItem fmt_time grp)) = min 5 (length (crumbs grp))"
proof -
  have "icons_loop (crumbs grp) [] 0 =
          map (\<lambda>j. make_icon (crumbs grp ! j) j j) [0..<min 5 (length (crumbs grp))]"
    using icons_loop_eq [of "[]" 0 "crumbs grp"] by simp
  then show ?thesis
    by (simp add: CrumbItem_def enumerate_take_map)
qed

theorem CrumbItem_icons_first_five_witness:
  "let mk = (\<lambda>n. \<lparr>crumb_id = n, crumb_type = ''navigation'', crumb_color = ''green300'',
                   crumb_category = Some ''navigation'', crumb_timestamp = ()\<rparr>);
       grp = \<lparr>active = False, crumbs = map mk [10, 11, 12, 13, 14, 15, 16],
              timestamp = ''2022-01-01T00:00:00''\<rparr>
   in length (item_icons (CrumbItem (\<lambda>s. drop 11 s) grp)) = 5
      \<and> map icon_id (item_icons (CrumbItem (\<lambda>s. drop 11 s) grp)) =
          [''timeline-navigation-10'', ''timeline-navigation-11'', ''timeline-navigation-12'',
           ''timeline-navigation-13'', ''timeline-navigation-14'']
      \<and> map icon_offset (item_icons (CrumbItem (\<lambda>s. drop 11 s) grp)) = [0, 1, 2, 3, 4]"
  using CrumbItem_icons_first_five [of "\<lambda>s. drop 11 s"
      "\<lparr>active = False,
        crumbs = map (\<lambda>n. \<lparr>crumb_id = n, crumb_type = ''navigation'', crumb_color = ''green300'',
                   crumb_category = Some ''navigation'', crumb_timestamp = ()\<rparr>)
                 [10, 11, 12, 13, 14, 15, 16],
        timestamp = ''2022-01-01T00:00:00''\<rparr>"]
  by (simp add: Let_def enumerate_eq_zip make_icon_def String_int_def String_nat.simps upt_rec)

subsection \<open>Grouping by timestamp in \<open>extractHighlights\<close>\<close>

lemma keys_mapping_push:
  "map fst (mapping_push m k c) = (if k \<in> fst ` set m then map fst m else map fst m @ [k])"
  by (induction m k c rule: mapping_push.induct) auto

lemma key_set_mapping_push:
  "fst ` set (mapping_push m k c) = insert k (fst ` set m)"
  by (induction m k c rule: mapping_push.induct) auto

lemma map_of_mapping_push:
  "map_of (mapping_push m k c) k' =
     (if k' = k then Some ((case map_of m k of None \<Rightarrow> [] | Some v \<Rightarrow> v) @ [c])
      else map_of m k')"
  by (induction m k c rule: mapping_push.induct) auto

lemma keys_add_crumb:
  "fst ` set (add_crumb fmt m c) =
     fst ` set m \<union> {k. k \<noteq> [] \<and> fmt (crumb_timestamp c) = k}"
  by (auto simp: add_crumb_def Let_def key_set_mapping_push)

lemma distinct_add_crumb:
  "distinct (map fst m) \<Longrightarrow> distinct (map fst (add_crumb fmt m c))"
  by (auto simp: add_crumb_def Let_def keys_mapping_push)

lemma map_of_add_crumb:
  "map_of (add_crumb fmt m c) k =
     (if k \<noteq> [] \<and> fmt (crumb_timestamp c) = k
      then Some ((case map_of m k of None \<Rightarrow> [] | Some v \<Rightarrow> v) @ [c])
      else map_of m k)"
  by (auto simp: add_crumb_def Let_def map_of_mapping_push)

lemma keys_foldl_add_crumb:
  "fst ` set (foldl (add_crumb fmt) m cs) =
     fst ` set m \<union> {k. k \<noteq> [] \<and> (\<exists>c\<in>set cs. fmt (crumb_timestamp c) = k)}"
proof (induction cs arbitrary: m)
  case Nil
  then show ?case by simp
next
  case (Cons c cs)
  have "fst ` set (foldl (add_crumb fmt) (add_crumb fmt m c) cs) =
          fst ` set (add_crumb fmt m c) \<union>
          {k. k \<noteq> [] \<and> (\<exists>c\<in>set cs. fmt (crumb_timestamp c) = k)}"
    using Cons.IH [of "add_crumb fmt m c"] by simp
  then show ?case
    unfolding keys_add_crumb by auto
qed

lemma distinct_foldl_add_crumb:
  "distinct (map fst m) \<Longrightarrow> distinct (map fst (foldl (add_crumb fmt) m cs))"
  by (induction cs arbitrary: m) (simp_all add: distinct_add_crumb)

lemma map_of_foldl_add_crumb:
  "map_of (foldl (add_crumb fmt) m cs) k =
     (if k = [] \<or> filter (\<lambda>c. fmt (crumb_timestamp c) = k) cs = [] then map_of m k
      else Some ((case map_of m k of None \<Rightarrow> [] | Some v \<Rightarrow> v)
                 @ filter (\<lambda>c. fmt (crumb_timestamp c) = k) cs))"
proof (induction cs arbitrary: m)
  case Nil
  then show ?case by simp
next
  case (Cons c cs)
  show ?case
    by (simp add: Cons.IH map_of_add_crumb)
qed

lemma relevant_iff:
  "relevant c \<longleftrightarrow>
     (\<exists>cat. crumb_category c = Some cat \<and> cat \<noteq> [] \<and> cat \<in> set NOTABLE_CATEGORIES)"
  by (auto simp: relevant_def split: option.splits)

lemma build_mapping_keys:
  "set (map fst (build_mapping fmt (filter relevant cs))) =
     {k. k \<noteq> [] \<and> (\<exists>c\<in>set cs. relevant c \<and> fmt (crumb_timestamp c) = k)}"
proof -
  have "fst ` set (build_mapping fmt (filter relevant cs)) =
     {k. k \<noteq> [] \<and> (\<exists>c\<in>set cs. relevant c \<and> fmt (crumb_timestamp c) = k)}"
    unfolding build_mapping_def keys_foldl_add_crumb by auto
  then show ?thesis by simp
qed

lemma build_mapping_distinct: "distinct (map fst (build_mapping fmt rel))"
  unfolding build_mapping_def by (rule distinct_foldl_add_crumb) simp

lemma build_mapping_entry:
  assumes "(k, v) \<in> set (build_mapping fmt (filter relevant cs))"
  shows "v = filter (\<lambda>c. relevant c \<and> fmt (crumb_timestamp c) = k) cs"
proof -
  have "map_of (build_mapping fmt (filter relevant cs)) k = Some v"
    using assms map_of_eq_Some_iff [OF build_mapping_distinct, of fmt "filter relevant cs" k v]
    by simp
  then have "v = filter (\<lambda>c. fmt (crumb_timestamp c) = k) (filter relevant cs)"
    unfolding build_mapping_def map_of_foldl_add_crumb by (simp split: if_splits)
  then show ?thesis by (simp add: conj_commute)
qed

lemma extractHighlights_alt:
  "extractHighlights fmt cs act =
     map (\<lambda>(key, val).
            \<lparr>active = ((case act of Some a \<Rightarrow> Some (fmt (crumb_timestamp a)) | None \<Rightarrow> None)
                        = Some key),
             crumbs = val, timestamp = key\<rparr>)
       (build_mapping fmt (filter relevant cs))"
  by (simp add: extractHighlights_def)

lemma extractHighlights_timestamps:
  "map timestamp (extractHighlights fmt cs act) =
   map fst (build_mapping fmt (filter relevant cs))"
  by (simp add: extractHighlights_alt split_def comp_def)

lemma extractHighlights_member:
  "g \<in> set (extractHighlights fmt cs act) \<Longrightarrow>
   (timestamp g, crumbs g) \<in> set (build_mapping fmt (filter relevant cs))"
  by (auto simp: extractHighlights_alt)

lemma extractHighlights_active:
  "g \<in> set (extractHighlights fmt cs act) \<Longrightarrow>
   active g \<longleftrightarrow> (\<exists>a. act = Some a \<and> fmt (crumb_timestamp a) = timestamp g)"
  by (auto simp: extractHighlights_alt split: option.splits)

lemma at_most_one_with_key:
  "distinct (map f xs) \<Longrightarrow> length (filter (\<lambda>x. f x = k) xs) \<le> 1"
proof (induction xs)
  case Nil
  then show ?case by simp
next
  case (Cons x xs)
  show ?case
  proof (cases "f x = k")
    case True
    have "f y \<noteq> k" if "y \<in> set xs" for y
      using that Cons.prems True by (auto simp: image_iff)
    then have "filter (\<lambda>x. f x = k) xs = []"
      by (simp add: filter_empty_conv)
    with True show ?thesis by simp
  next
    case False
    with Cons show ?thesis by simp
  qed
qed

text \<open>
  Claim C1. For every list of breadcrumbs and optional active crumb, the result of
  \<open>extractHighlights\<close> groups the breadcrumbs by their formatted timestamp: the keys of the
  groups are pairwise distinct; they are the formatted timestamps of the crumbs that pass the
  category filter (the empty string is never a key: the loop skips it, and the date library
  never prints it for this pattern); the crumbs of a group are exactly the input crumbs, in
  input order, whose category is present, non-empty and in \<open>NOTABLE_CATEGORIES\<close> and whose
  formatted timestamp is the key of the group; so a crumb without category, or with a category
  outside \<open>NOTABLE_CATEGORIES\<close>, is in no group.
\<close>

theorem extractHighlights_groups_by_timestamp:
  "distinct (map timestamp (extractHighlights fmt cs act))
   \<and> set (map timestamp (extractHighlights fmt cs act)) =
       {k. k \<noteq> [] \<and> (\<exists>c\<in>set cs. relevant c \<and> fmt (crumb_timestamp c) = k)}
   \<and> (\<forall>g\<in>set (extractHighlights fmt cs act).
         crumbs g = filter (\<lambda>c. relevant c \<and> fmt (crumb_timestamp c) = timestamp g) cs)
   \<and> (\<forall>c. relevant c \<longleftrightarrow>
         (\<exists>cat. crumb_category c = Some cat \<and> cat \<noteq> [] \<and> cat \<in> set NOTABLE_CATEGORIES))
   \<and> (\<forall>g\<in>set (extractHighlights fmt cs act). \<forall>c\<in>set (crumbs g). relevant c)"
proof -
  have 1: "distinct (map timestamp (extractHighlights fmt cs act))"
    by (simp add: extractHighlights_timestamps build_mapping_distinct)
  have 2: "set (map timestamp (extractHighlights fmt cs act)) =
       {k. k \<noteq> [] \<and> (\<exists>c\<in>set cs. relevant c \<and> fmt (crumb_timestamp c) = k)}"
    by (simp only: extractHighlights_timestamps build_mapping_keys)
  have 3: "crumbs g = filter (\<lambda>c. relevant c \<and> fmt (crumb_timestamp c) = timestamp g) cs"
    if "g \<in> set (extractHighlights fmt cs act)" for g
    using that by (intro build_mapping_entry extractHighlights_member)
  have 4: "relevant c"
    if "g \<in> set (extractHighlights fmt cs act)" "c \<in> set (crumbs g)" for g c
    using 3 [OF that(1)] that(2) by simp
  from 1 2 3 4 relevant_iff show ?thesis by blast
qed

theorem extractHighlights_groups_by_timestamp_witness:
  "let c1 = \<lparr>crumb_id = 0, crumb_type = ''navigation'', crumb_color = ''green300'',
              crumb_category = Some ''navigation'', crumb_timestamp = ''2022-01-01T00:00:00''\<rparr>;
       c2 = \<lparr>crumb_id = 1, crumb_type = ''debug'', crumb_color = ''purple300'',
              crumb_category = None, crumb_timestamp = ''2022-01-01T00:00:00''\<rparr>;
       c3 = \<lparr>crumb_id = 2, crumb_type = ''ui'', crumb_color = ''purple300'',
              crumb_category = Some ''ui.click'', crumb_timestamp = ''2022-01-01T00:00:01''\<rparr>;
       c4 = \<lparr>crumb_id = 3, crumb_type = ''http'', crumb_color = ''green300'',
              crumb_category = Some ''xhr'', crumb_timestamp = ''2022-01-01T00:00:02''\<rparr>;
       c5 = \<lparr>crumb_id = 4, crumb_type = ''navigation'', crumb_color = ''green300'',
              crumb_category = Some ''navigation'', crumb_timestamp = ''2022-01-01T00:00:00''\<rparr>;
       cs = [c1, c2, c3, c4, c5];
       gs = extractHighlights (\<lambda>t. t) cs None
   in gs = [\<lparr>active = False, crumbs = [c1, c5], timestamp = ''2022-01-01T00:00:00''\<rparr>,
            \<lparr>active = False, crumbs = [c3], timestamp = ''2022-01-01T00:00:01''\<rparr>]
      \<and> distinct (map timestamp gs)
      \<and> crumbs (gs ! 0) =
          filter (\<lambda>c. relevant c \<and> crumb_timestamp c = timestamp (gs ! 0)) cs
      \<and> crumbs (gs ! 1) =
          filter (\<lambda>c. relevant c \<and> crumb_timestamp c = timestamp (gs ! 1)) cs"
proof -
  define c1 where "c1 = \<lparr>crumb_id = 0, crumb_type = ''navigation'', crumb_color = ''green300'',
              crumb_category = Some ''navigation'', crumb_timestamp = ''2022-01-01T00:00:00''\<rparr>"
  define c2 where "c2 = \<lparr>crumb_id = 1, crumb_type = ''debug'', crumb_color = ''purple300'',
              crumb_category = None, crumb_timestamp = ''2022-01-01T00:00:00''\<rparr>"
  define c3 where "c3 = \<lparr>crumb_id = 2, crumb_type = ''ui'', crumb_color = ''purple300'',
              crumb_category = Some ''ui.click'', crumb_timestamp = ''2022-01-01T00:00:01''\<rparr>"
  define c4 where "c4 = \<lparr>crumb_id = 3, crumb_type = ''http'', crumb_color = ''green300'',
              crumb_category = Some ''xhr'', crumb_timestamp = ''2022-01-01T00:00:02''\<rparr>"
  define c5 where "c5 = \<lparr>crumb_id = 4, crumb_type = ''navigation'', crumb_color = ''green300'',
              crumb_category = Some ''navigation'', crumb_timestamp = ''2022-01-01T00:00:00''\<rparr>"
  define cs where "cs = [c1, c2, c3, c4, c5]"
  define gs where "gs = extractHighlights (\<lambda>t. t) cs None"
  have rel: "relevant c1" "\<not> relevant c2" "relevant c3" "\<not> relevant c4" "relevant c5"
    by (simp_all add: relevant_def NOTABLE_CATEGORIES_def c1_def c2_def c3_def c4_def c5_def)
  have ts: "crumb_timestamp c1 = ''2022-01-01T00:00:00''" "crumb_timestamp c3 = ''2022-01-01T00:00:01''"
     "crumb_timestamp c5 = ''2022-01-01T00:00:00''"
    by (simp_all add: c1_def c3_def c5_def)
  have gs: "gs = [\<lparr>active = False, crumbs = [c1, c5], timestamp = ''2022-01-01T00:00:00''\<rparr>,
            \<lparr>active = False, crumbs = [c3], timestamp = ''2022-01-01T00:00:01''\<rparr>]"
    by (simp add: gs_def cs_def extractHighlights_def build_mapping_def add_crumb_def rel ts)
  have mem: "gs ! 0 \<in> set gs" "gs ! 1 \<in> set gs"
    by (simp_all add: gs)
  from extractHighlights_groups_by_timestamp [of "\<lambda>t. t" cs None] mem
  have "distinct (map timestamp gs)
      \<and> crumbs (gs ! 0) =
          filter (\<lambda>c. relevant c \<and> crumb_timestamp c = timestamp (gs ! 0)) cs
      \<and> crumbs (gs ! 1) =
          filter (\<lambda>c. relevant c \<and> crumb_timestamp c = timestamp (gs ! 1)) cs"
    unfolding gs_def by blast
  with gs show ?thesis
    unfolding Let_def gs_def cs_def c1_def c2_def c3_def c4_def c5_def by blast
qed

text \<open>
  Claim C9. For every list of breadcrumbs and optional active crumb, at most one group of the
  result is active: the keys of the groups are pairwise distinct, a group is active exactly
  when an active crumb is given and the group's key is that crumb's formatted timestamp, and
  without an active crumb no group is active.
\<close>

theorem extractHighlights_at_most_one_active:
  "length (filter active (extractHighlights fmt cs act)) \<le> 1
   \<and> distinct (map timestamp (extractHighlights fmt cs act))
   \<and> (\<forall>g\<in>set (extractHighlights fmt cs act).
         active g \<longleftrightarrow> (\<exists>a. act = Some a \<and> timestamp g = fmt (crumb_timestamp a)))
   \<and> (act = None \<longrightarrow> (\<forall>g\<in>set (extractHighlights fmt cs act). \<not> active g))"
proof -
  let ?gs = "extractHighlights fmt cs act"
  have d: "distinct (map timestamp ?gs)"
    by (simp add: extractHighlights_timestamps build_mapping_distinct)
  have a: "active g \<longleftrightarrow> (\<exists>a. act = Some a \<and> timestamp g = fmt (crumb_timestamp a))"
    if "g \<in> set ?gs" for g
    using extractHighlights_active [OF that] by auto
  have "length (filter active ?gs) \<le> 1"
  proof (cases act)
    case None
    then have "filter active ?gs = []"
      using a by (auto simp: filter_empty_conv)
    then show ?thesis by simp
  next
    case (Some a0)
    then have "filter active ?gs = filter (\<lambda>g. timestamp g = fmt (crumb_timestamp a0)) ?gs"
      using a by (intro filter_cong) auto
    then show ?thesis
      using at_most_one_with_key [OF d] by simp
  qed
  with d a show ?thesis by blast
qed

theorem extractHighlights_at_most_one_active_witness:
  "let c1 = \<lparr>crumb_id = 0, crumb_type = ''navigation'', crumb_color = ''green300'',
              crumb_category = Some ''navigation'', crumb_timestamp = ''2022-01-01T00:00:00''\<rparr>;
       c2 = \<lparr>crumb_id = 1, crumb_type = ''ui'', crumb_color = ''purple300'',
              crumb_category = Some ''ui.click'', crumb_timestamp = ''2022-01-01T00:00:01''\<rparr>;
       c3 = \<lparr>crumb_id = 2, crumb_type = ''ui'', crumb_color = ''purple300'',
              crumb_category = Some ''click'', crumb_timestamp = ''2022-01-01T00:00:01''\<rparr>;
       gs = extractHighlights (\<lambda>t. t) [c1, c2, c3] (Some c3);
       hs = extractHighlights (\<lambda>t. t) [c1, c2, c3] None
   in map timestamp gs = [''2022-01-01T00:00:00'', ''2022-01-01T00:00:01'']
      \<and> map active gs = [False, True]
      \<and> length (filter active gs) \<le> 1
      \<and> map active hs = [False, False]
      \<and> length (filter active hs) \<le> 1"
proof -
  define c1 where "c1 = \<lparr>crumb_id = 0, crumb_type = ''navigation'', crumb_color = ''green300'',
              crumb_category = Some ''navigation'', crumb_timestamp = ''2022-01-01T00:00:00''\<rparr>"
  define c2 where "c2 = \<lparr>crumb_id = 1, crumb_type = ''ui'', crumb_color = ''purple300'',
              crumb_category = Some ''ui.click'', crumb_timestamp = ''2022-01-01T00:00:01''\<rparr>"
  define c3 where "c3 = \<lparr>crumb_id = 2, crumb_type = ''ui'', crumb_color = ''purple300'',
              crumb_category = Some ''click'', crumb_timestamp = ''2022-01-01T00:00:01''\<rparr>"
  have rel: "relevant c1" "relevant c2" "relevant c3"
    by (simp_all add: relevant_def NOTABLE_CATEGORIES_def c1_def c2_def c3_def)
  have ts: "crumb_timestamp c1 = ''2022-01-01T00:00:00''"
    "crumb_timestamp c2 = ''2022-01-01T00:00:01''"
    "crumb_timestamp c3 = ''2022-01-01T00:00:01''"
    by (simp_all add: c1_def c2_def c3_def)
  have gs: "extractHighlights (\<lambda>t. t) [c1, c2, c3] act =
      [\<lparr>active = (map_option crumb_timestamp act = Some ''2022-01-01T00:00:00''),
        crumbs = [c1], timestamp = ''2022-01-01T00:00:00''\<rparr>,
       \<lparr>active = (map_option crumb_timestamp act = Some ''2022-01-01T00:00:01''),
        crumbs = [c2, c3], timestamp = ''2022-01-01T00:00:01''\<rparr>]" for act
    by (cases act) (simp_all add: extractHighlights_def build_mapping_def add_crumb_def rel ts)
  have "length (filter active (extractHighlights (\<lambda>t. t) [c1, c2, c3] (Some c3))) \<le> 1"
    and "length (filter active (extractHighlights (\<lambda>t. t) [c1, c2, c3] None)) \<le> 1"
    using extractHighlights_at_most_one_active [of "\<lambda>t. t" "[c1, c2, c3]" "Some c3"]
      extractHighlights_at_most_one_active [of "\<lambda>t. t" "[c1, c2, c3]" None]
    by blast+
  then have "map timestamp (extractHighlights (\<lambda>t. t) [c1, c2, c3] (Some c3)) =
        [''2022-01-01T00:00:00'', ''2022-01-01T00:00:01'']
      \<and> map active (extractHighlights (\<lambda>t. t) [c1, c2, c3] (Some c3)) = [False, True]
      \<and> length (filter active (extractHighlights (\<lambda>t. t) [c1, c2, c3] (Some c3))) \<le> 1
      \<and> map active (extractHighlights (\<lambda>t. t) [c1, c2, c3] None) = [False, False]
      \<and> length (filter active (extractHighlights (\<lambda>t. t) [c1, c2, c3] None)) \<le> 1"
    by (simp add: gs ts)
  then show ?thesis
    unfolding Let_def c1_def c2_def c3_def .
qed

section \<open>Properties of the selected frame renderer\<close>

lemma draw_loop_eq:
  "draw_loop T frames style M i ctx =
     ctx @ concat (map (\<lambda>frame. [BeginPath,
                                  StrokeRect (rect_x (borderRect style (T frame M)))
                                             (rect_y (borderRect style (T frame M)))
                                             (rect_width (borderRect style (T frame M)))
                                             (rect_height (borderRect style (T frame M)))])
                      (drop i frames))"
proof (induction T frames style M i ctx rule: draw_loop.induct)
  case (1 T frames style M i ctx)
  show ?case
  proof (cases "i < length frames")
    case True
    then have d: "drop i frames = frames ! i # drop (i + 1) frames"
      by (simp add: Cons_nth_drop_Suc)
    show ?thesis
      using True "1.IH" [OF True refl refl]
      by (subst draw_loop.simps) (simp add: d Let_def)
  next
    case False
    then show ?thesis
      by (subst draw_loop.simps) simp
  qed
qed

lemma stroked_rects_append:
  "stroked_rects (xs @ ys) = stroked_rects xs @ stroked_rects ys"
  by (induction xs rule: stroked_rects.induct) simp_all

lemma stroked_rects_coords:
  "stroked_rects (concat (map (\<lambda>frame. [BeginPath, StrokeRect (a frame) (b frame) (c frame) (d frame)])
                      frames)) =
   map (\<lambda>frame. \<lparr>rect_x = a frame, rect_y = b frame, rect_width = c frame, rect_height = d frame\<rparr>)
     frames"
  by (induction frames) simp_all

lemma stroked_rects_frames:
  "stroked_rects (concat (map (\<lambda>frame. [BeginPath,
                                  StrokeRect (rect_x (f frame)) (rect_y (f frame))
                                             (rect_width (f frame)) (rect_height (f frame))])
                      frames)) = map f frames"
  by (simp add: stroked_rects_coords)

lemma draw_eq:
  "draw T this frames style M context =
     (case context of None \<Rightarrow> renderer_context this | Some c \<Rightarrow> c)
     @ [SetStrokeStyle (BORDER_COLOR style), SetLineWidth (BORDER_WIDTH style)]
     @ concat (map (\<lambda>frame. [BeginPath,
                              StrokeRect (rect_x (borderRect style (T frame M)))
                                         (rect_y (borderRect style (T frame M)))
                                         (rect_width (borderRect style (T frame M)))
                                         (rect_height (borderRect style (T frame M)))])
                   frames)"
  by (simp add: draw_def draw_loop_eq)


text \<open>
  Claim C6. For every list of frames, \<open>draw\<close> first sets \<open>strokeStyle\<close> to
  \<open>style.BORDER_COLOR\<close> and \<open>lineWidth\<close> to \<open>style.BORDER_WIDTH\<close> on the context it draws
  on, and then strokes exactly one rectangle per frame, in the order of the list: the
  rectangle of a frame is \<open>borderRect\<close> of that frame transformed by the matrix
  \<open>configViewToPhysicalSpace\<close>. On an empty list it strokes nothing.
\<close>

theorem draw_strokes_one_rectangle_per_frame:
  "draw T this frames style M context =
     (case context of None \<Rightarrow> renderer_context this | Some c \<Rightarrow> c)
     @ [SetStrokeStyle (BORDER_COLOR style), SetLineWidth (BORDER_WIDTH style)]
     @ concat (map (\<lambda>frame. [BeginPath,
                              StrokeRect (rect_x (borderRect style (T frame M)))
                                         (rect_y (borderRect style (T frame M)))
                                         (rect_width (borderRect style (T frame M)))
                                         (rect_height (borderRect style (T frame M)))])
                   frames)
   \<and> stroked_rects (draw T this frames style M context) =
       stroked_rects (case context of None \<Rightarrow> renderer_context this | Some c \<Rightarrow> c)
       @ map (\<lambda>frame. borderRect style (T frame M)) frames
   \<and> length (stroked_rects (draw T this frames style M (Some []))) = length frames
   \<and> draw T this [] style M (Some []) =
       [SetStrokeStyle (BORDER_COLOR style), SetLineWidth (BORDER_WIDTH style)]"
  by (simp add: draw_eq stroked_rects_append stroked_rects_frames)

theorem draw_strokes_one_rectangle_per_frame_witness:
  "draw (\<lambda>r m. r\<lparr>rect_x := rect_x r * m, rect_width := rect_width r * m\<rparr>)
        \<lparr>renderer_canvas = (), renderer_context = []\<rparr>
        [\<lparr>rect_x = 1, rect_y = 2, rect_width = 10, rect_height = 4\<rparr>,
         \<lparr>rect_x = 0, rect_y = 6, rect_width = 3, rect_height = 4\<rparr>]
        \<lparr>BORDER_COLOR = ''#000'', BORDER_WIDTH = 2\<rparr> (2::real) None =
     [SetStrokeStyle ''#000'', SetLineWidth 2,
      BeginPath, StrokeRect 3 3 18 2, BeginPath, StrokeRect 1 7 4 2]"
  using draw_strokes_one_rectangle_per_frame
    [of "\<lambda>r m. r\<lparr>rect_x := rect_x r * m, rect_width := rect_width r * m\<rparr>"
        "\<lparr>renderer_canvas = (), renderer_context = []\<rparr>"
        "[\<lparr>rect_x = 1, rect_y = 2, rect_width = 10, rect_height = 4\<rparr>,
         \<lparr>rect_x = 0, rect_y = 6, rect_width = 3, rect_height = 4\<rparr>]"
        "\<lparr>BORDER_COLOR = ''#000'', BORDER_WIDTH = 2\<rparr>" "2::real" None]
  by (simp add: borderRect_def translate_def withWidth_def withHeight_def)



section \<open>Properties of the file field\<close>

subsection \<open>The order of the calls\<close>


















subsection \<open>The rendered output\<close>




section \<open>Properties of the JSON form\<close>

subsection \<open>Hidden panels\<close>

lemma visible_fields_all_hidden:
  "(\<forall>field\<in>set fs. eval_visible props field = Inr False) \<Longrightarrow> visible_fields props fs = Inr []"
  by (induction fs) simp_all

lemma renderForm_all_hidden:
  assumes "\<forall>field\<in>set fs. eval_visible props field = Inr False"
  shows "renderForm props header footer title fs =
           (if header = None \<and> footer = None then Inr None
            else Inr (Some \<lparr>panel_title = title, panel_inputs = [],
                            panel_header = header, panel_footer = footer\<rparr>))"
  by (simp add: renderForm_def visible_fields_all_hidden [OF assms])

lemma renderForms_all_hidden:
  assumes "\<forall>field\<in>set (concat (map group_fields fms)). eval_visible props field = Inr False"
  shows "renderForms props header footer fms =
           (if header = None \<and> footer = None then Inr []
            else Inr (map (\<lambda>form. \<lparr>panel_title = Some (group_title form), panel_inputs = [],
                                     panel_header = header, panel_footer = footer\<rparr>) fms))"
  using assms
proof (induction fms)
  case Nil
  then show ?case by simp
next
  case (Cons form fms)
  then have 1: "\<forall>field\<in>set (group_fields form). eval_visible props field = Inr False"
    and 2: "\<forall>field\<in>set (concat (map group_fields fms)). eval_visible props field = Inr False"
    by simp_all
  show ?case
  proof (cases "header = None \<and> footer = None")
    case True
    then have "renderForm props header footer (Some (group_title form)) (group_fields form)
                 = Inr None"
      and "renderForms props header footer fms = Inr []"
      using renderForm_all_hidden [OF 1, of header footer "Some (group_title form)"]
        Cons.IH [OF 2] by simp_all
    with True show ?thesis by simp
  next
    case False
    then have "renderForm props header footer (Some (group_title form)) (group_fields form)
                 = Inr (Some \<lparr>panel_title = Some (group_title form), panel_inputs = [],
                                panel_header = header, panel_footer = footer\<rparr>)"
      and "renderForms props header footer fms =
             Inr (map (\<lambda>form. \<lparr>panel_title = Some (group_title form), panel_inputs = [],
                                     panel_header = header, panel_footer = footer\<rparr>) fms)"
      using renderForm_all_hidden [OF 1, of header footer "Some (group_title form)"]
        Cons.IH [OF 2] by auto
    with False show ?thesis by simp
  qed
qed

text \<open>
  Claim C2, as stated, fails: a form whose fields all have \<open>visible\<close> false still renders its
  panel when \<open>renderHeader\<close> is passed, as the test "should NOT hide panel, if all fields have
  visible set to false AND a prop renderHeader is passed" expects.
\<close>

theorem JsonForm_all_hidden_with_header:
  "JsonForm
     \<lparr>forms_prop = Some [\<lparr>group_title = ''Account Details'',
                           group_fields = [\<lparr>field_name = ''name'', field_visible = Some (VisibleBool False)\<rparr>,
                                           \<lparr>field_name = ''email'', field_visible = Some (VisibleBool False)\<rparr>]\<rparr>],
      fields_prop = None,
      additionalFieldProps = Some [(''user'', JObject [(''email'', JString ''foo@example.com''),
                                                      (''username'', JString ''foo@example.com'')])],
      renderHeader = Some ''this is a Header '',
      renderFooter = None\<rparr>
   = Inr [\<lparr>panel_title = Some ''Account Details'', panel_inputs = [],
           panel_header = Some ''this is a Header '', panel_footer = None\<rparr>]"
  by (simp add: JsonForm_def renderForm_def eval_visible_def)

text \<open>
  Claim C2, amended. For every form whose field descriptors all evaluate to \<open>visible\<close> false,
  as booleans or as functions, and to which neither \<open>renderHeader\<close> nor \<open>renderFooter\<close> is
  passed, the panel is omitted: no \<open>FormPanel\<close> is rendered. When \<open>renderHeader\<close> or
  \<open>renderFooter\<close> is passed, the panels are rendered, without any input.
\<close>

theorem JsonForm_hides_panel_without_header_and_footer:
  assumes "\<forall>field\<in>set (form_fields props). eval_visible (field_props props) field = Inr False"
  shows "(renderHeader props = None \<and> renderFooter props = None \<longrightarrow> JsonForm props = Inr [])
       \<and> (renderHeader props \<noteq> None \<or> renderFooter props \<noteq> None \<longrightarrow>
            (\<exists>panels. JsonForm props = Inr panels
               \<and> map panel_inputs panels =
                   replicate (case forms_prop props of Some fms \<Rightarrow> length fms
                              | None \<Rightarrow> (case fields_prop props of None \<Rightarrow> 0 | Some fs \<Rightarrow> 1)) []))"
proof (cases "forms_prop props")
  case (Some fms)
  with assms have "\<forall>field\<in>set (concat (map group_fields fms)).
      eval_visible (field_props props) field = Inr False"
    by (simp add: form_fields_def)
  from renderForms_all_hidden [OF this, of "renderHeader props" "renderFooter props"]
  show ?thesis
    using Some by (auto simp: JsonForm_def field_props_def comp_def map_replicate_const)
next
  case None
  show ?thesis
  proof (cases "fields_prop props")
    case n: None
    with None show ?thesis by (simp add: JsonForm_def)
  next
    case (Some fs)
    with assms None have "\<forall>field\<in>set fs. eval_visible (field_props props) field = Inr False"
      by (simp add: form_fields_def)
    from renderForm_all_hidden [OF this, of "renderHeader props" "renderFooter props" None]
    show ?thesis
      using None Some by (auto simp: JsonForm_def field_props_def)
  qed
qed

theorem JsonForm_hides_panel_without_header_and_footer_witness:
  "JsonForm
     \<lparr>forms_prop = None,
      fields_prop = Some [\<lparr>field_name = ''name'', field_visible = Some (VisibleBool False)\<rparr>,
                          \<lparr>field_name = ''platform'',
                           field_visible = Some (VisibleFun (\<lambda>props. Inr False))\<rparr>],
      additionalFieldProps = None, renderHeader = None, renderFooter = (None :: string option)\<rparr>
     = Inr []
   \<and> JsonForm
     \<lparr>forms_prop = None,
      fields_prop = Some [\<lparr>field_name = ''name'', field_visible = Some (VisibleBool False)\<rparr>,
                          \<lparr>field_name = ''platform'',
                           field_visible = Some (VisibleFun (\<lambda>props. Inr False))\<rparr>],
      additionalFieldProps = None, renderHeader = None, renderFooter = Some ''this is a Footer ''\<rparr>
     = Inr [\<lparr>panel_title = None, panel_inputs = [], panel_header = None,
             panel_footer = Some ''this is a Footer ''\<rparr>]"
proof -
  let ?fs = "[\<lparr>field_name = ''name'', field_visible = Some (VisibleBool False)\<rparr>,
              \<lparr>field_name = ''platform'',
               field_visible = Some (VisibleFun (\<lambda>props. Inr False))\<rparr>]"
  let ?p = "\<lambda>footer. \<lparr>forms_prop = None, fields_prop = Some ?fs,
      additionalFieldProps = None, renderHeader = None, renderFooter = (footer :: string option)\<rparr>"
  have h: "\<forall>field\<in>set (form_fields (?p footer)).
             eval_visible (field_props (?p footer)) field = Inr False" for footer
    by (simp add: form_fields_def eval_visible_def)
  have 1: "JsonForm (?p None) = Inr []"
    using JsonForm_hides_panel_without_header_and_footer [OF h [of None]] by simp
  obtain panels where 2: "JsonForm (?p (Some ''this is a Footer '')) = Inr panels"
    using JsonForm_hides_panel_without_header_and_footer [OF h [of "Some ''this is a Footer ''"]]
    by auto
  have "JsonForm (?p (Some ''this is a Footer '')) =
      Inr [\<lparr>panel_title = None, panel_inputs = [], panel_header = None,
             panel_footer = Some ''this is a Footer ''\<rparr>]"
    by (simp add: JsonForm_def renderForm_def eval_visible_def)
  with 1 show ?thesis by simp
qed

subsection \<open>Functions that throw\<close>

lemma eval_visible_throws:
  "eval_visible props field = Inl err \<Longrightarrow>
   \<exists>h. field_visible field = Some (VisibleFun h) \<and> h props = Inl err"
  by (auto simp: eval_visible_def split: option.splits visible.splits)

lemma visible_fields_throws:
  "visible_fields props fs = Inl err \<Longrightarrow> \<exists>g\<in>set fs. eval_visible props g = Inl err"
  by (induction fs) (auto split: sum.splits)

lemma visible_fields_throws_if:
  "g \<in> set fs \<Longrightarrow> eval_visible props g = Inl e \<Longrightarrow> \<exists>err. visible_fields props fs = Inl err"
  by (induction fs) (auto split: sum.splits)

lemma renderForm_throws:
  "renderForm props header footer title fs = Inl err \<longleftrightarrow> visible_fields props fs = Inl err"
  by (auto simp: renderForm_def split: sum.splits)

lemma renderForms_throws:
  "renderForms props header footer fms = Inl err \<Longrightarrow>
   \<exists>g\<in>set (concat (map group_fields fms)). eval_visible props g = Inl err"
proof (induction fms)
  case Nil
  then show ?case by simp
next
  case (Cons form fms)
  show ?case
  proof (cases "renderForm props header footer (Some (group_title form)) (group_fields form)")
    case (Inl e)
    with Cons.prems have "e = err" by simp
    with Inl have "visible_fields props (group_fields form) = Inl err"
      by (simp add: renderForm_throws)
    then show ?thesis using visible_fields_throws by fastforce
  next
    case (Inr panel)
    with Cons.prems have "renderForms props header footer fms = Inl err"
      by (simp split: sum.splits)
    then show ?thesis using Cons.IH by auto
  qed
qed

lemma renderForms_throws_if:
  "g \<in> set (concat (map group_fields fms)) \<Longrightarrow> eval_visible props g = Inl e \<Longrightarrow>
   \<exists>err. renderForms props header footer fms = Inl err"
proof (induction fms)
  case Nil
  then show ?case by simp
next
  case (Cons form fms)
  show ?case
  proof (cases "renderForm props header footer (Some (group_title form)) (group_fields form)")
    case (Inl e')
    then show ?thesis by simp
  next
    case (Inr panel)
    have "\<not> (\<exists>err. visible_fields props (group_fields form) = Inl err)"
    proof
      assume "\<exists>err. visible_fields props (group_fields form) = Inl err"
      then obtain err where "visible_fields props (group_fields form) = Inl err" by blast
      then have "renderForm props header footer (Some (group_title form)) (group_fields form)
                   = Inl err"
        by (simp add: renderForm_throws)
      with Inr show False by simp
    qed
    then have "g \<notin> set (group_fields form)"
      using visible_fields_throws_if [OF _ Cons.prems(2)] by blast
    with Cons.prems(1) have "g \<in> set (concat (map group_fields fms))" by simp
    then obtain err where "renderForms props header footer fms = Inl err"
      using Cons.IH Cons.prems(2) by blast
    with Inr show ?thesis by simp
  qed
qed

lemma JsonForm_throws:
  "JsonForm props = Inl err \<Longrightarrow>
   \<exists>g\<in>set (form_fields props). eval_visible (field_props props) g = Inl err"
proof (cases "forms_prop props")
  case (Some fms)
  assume "JsonForm props = Inl err"
  with Some have "renderForms (field_props props) (renderHeader props) (renderFooter props) fms
      = Inl err"
    by (simp add: JsonForm_def field_props_def)
  from renderForms_throws [OF this] Some show ?thesis
    by (simp add: form_fields_def)
next
  case None
  assume a: "JsonForm props = Inl err"
  show ?thesis
  proof (cases "fields_prop props")
    case n: None
    with None a show ?thesis by (simp add: JsonForm_def)
  next
    case (Some fs)
    with None a have "renderForm (field_props props) (renderHeader props) (renderFooter props)
        None fs = Inl err"
      by (simp add: JsonForm_def field_props_def split: sum.splits option.splits)
    then have "visible_fields (field_props props) fs = Inl err"
      by (simp add: renderForm_throws)
    from visible_fields_throws [OF this] None Some show ?thesis
      by (simp add: form_fields_def)
  qed
qed

lemma JsonForm_throws_if:
  assumes "g \<in> set (form_fields props)" "eval_visible (field_props props) g = Inl e"
  shows "\<exists>err. JsonForm props = Inl err"
proof (cases "forms_prop props")
  case (Some fms)
  with assms(1) have "g \<in> set (concat (map group_fields fms))"
    by (simp add: form_fields_def)
  from renderForms_throws_if [OF this assms(2), of "renderHeader props" "renderFooter props"]
  show ?thesis using Some by (simp add: JsonForm_def field_props_def)
next
  case None
  show ?thesis
  proof (cases "fields_prop props")
    case n: None
    with None assms(1) show ?thesis by (simp add: form_fields_def)
  next
    case (Some fs)
    with None assms(1) have "g \<in> set fs" by (simp add: form_fields_def)
    from visible_fields_throws_if [OF this assms(2)]
    obtain err where "visible_fields (field_props props) fs = Inl err" by blast
    then have "renderForm (field_props props) (renderHeader props) (renderFooter props)
        None fs = Inl err"
      by (simp add: renderForm_throws)
    with None Some show ?thesis by (simp add: JsonForm_def field_props_def)
  qed
qed

lemma visible_reads_undefined:
  "map_of props k = None \<Longrightarrow>
   visible_reads k p props =
     Inl (TypeError (''Cannot read properties of undefined (reading '' @ [CHR 0x27] @ p
                     @ [CHR 0x27] @ '')''))"
  by (simp add: visible_reads_def prop_of_def)

text \<open>
  Claim C4. A form that contains a field whose \<open>visible\<close> property is a function reading a
  property of a value of the additional field properties, rendered without additional field
  properties, throws instead of rendering without that field: the render ends with an
  error thrown by a \<open>visible\<close> function of the form. The function of that field throws the
  \<open>TypeError\<close> "Cannot read properties of undefined (reading 'p')" for the property \<open>p\<close> that
  it reads, and this is the error of the render when no other function of the form throws,
  as in the tested configuration.
\<close>

theorem JsonForm_missing_additionalFieldProps_throws:
  assumes "additionalFieldProps props = None"
    and "field \<in> set (form_fields props)"
    and "field_visible field = Some (VisibleFun (visible_reads k p))"
  shows "(\<exists>err. JsonForm props = Inl err
            \<and> (\<exists>g\<in>set (form_fields props). \<exists>h.
                  field_visible g = Some (VisibleFun h) \<and> h [] = Inl err))
       \<and> visible_reads k p [] =
           Inl (TypeError (''Cannot read properties of undefined (reading '' @ [CHR 0x27] @ p
                           @ [CHR 0x27] @ '')''))
       \<and> ((\<forall>g\<in>set (form_fields props). \<forall>h. field_visible g = Some (VisibleFun h) \<longrightarrow>
              h = visible_reads k p \<or> (\<exists>b. h [] = Inr b)) \<longrightarrow>
           JsonForm props =
             Inl (TypeError (''Cannot read properties of undefined (reading '' @ [CHR 0x27] @ p
                             @ [CHR 0x27] @ '')'')))"
proof -
  let ?msg = "TypeError (''Cannot read properties of undefined (reading '' @ [CHR 0x27] @ p
                           @ [CHR 0x27] @ '')'')"
  have fp: "field_props props = []"
    using assms(1) by (simp add: field_props_def)
  have r: "visible_reads k p [] = Inl ?msg"
    by (rule visible_reads_undefined) simp
  then have "eval_visible (field_props props) field = Inl ?msg"
    using assms(3) fp by (simp add: eval_visible_def)
  from JsonForm_throws_if [OF assms(2) this]
  obtain err where err: "JsonForm props = Inl err" by blast
  from JsonForm_throws [OF err] obtain g where
    g: "g \<in> set (form_fields props)" "eval_visible [] g = Inl err"
    using fp by auto
  from eval_visible_throws [OF g(2)] obtain h where
    h: "field_visible g = Some (VisibleFun h)" "h [] = Inl err" by blast
  have 1: "\<exists>err. JsonForm props = Inl err
            \<and> (\<exists>g\<in>set (form_fields props). \<exists>h.
                  field_visible g = Some (VisibleFun h) \<and> h [] = Inl err)"
    using err g(1) h by blast
  have 3: "JsonForm props = Inl ?msg"
    if "\<forall>g\<in>set (form_fields props). \<forall>h. field_visible g = Some (VisibleFun h) \<longrightarrow>
              h = visible_reads k p \<or> (\<exists>b. h [] = Inr b)"
  proof -
    from that g(1) h(1) have "h = visible_reads k p \<or> (\<exists>b. h [] = Inr b)" by blast
    with h(2) have "h = visible_reads k p" by auto
    with h(2) r have "err = ?msg" by simp
    with err show ?thesis by simp
  qed
  from 1 r 3 show ?thesis by blast
qed

theorem JsonForm_missing_additionalFieldProps_throws_witness:
  "JsonForm
     \<lparr>forms_prop = None,
      fields_prop = Some [\<lparr>field_name = ''name'',
                           field_visible = Some (VisibleFun (visible_reads ''test'' ''email''))\<rparr>],
      additionalFieldProps = None, renderHeader = None, renderFooter = (None :: unit option)\<rparr>
   = Inl (TypeError ''Cannot read properties of undefined (reading 'email')'')
   \<and> JsonForm
     \<lparr>forms_prop = Some [\<lparr>group_title = ''Account Details'',
                           group_fields =
                             [\<lparr>field_name = ''name'', field_visible = None\<rparr>,
                              \<lparr>field_name = ''username'',
                               field_visible = Some (VisibleFun (visible_reads ''user'' ''email''))\<rparr>]\<rparr>],
      fields_prop = None,
      additionalFieldProps = None, renderHeader = None, renderFooter = (None :: unit option)\<rparr>
   = Inl (TypeError ''Cannot read properties of undefined (reading 'email')'')"
proof -
  let ?field = "\<lparr>field_name = ''name'',
                  field_visible = Some (VisibleFun (visible_reads ''test'' ''email''))\<rparr>"
  let ?props = "\<lparr>forms_prop = None, fields_prop = Some [?field],
      additionalFieldProps = None, renderHeader = None, renderFooter = (None :: unit option)\<rparr>"
  let ?username = "\<lparr>field_name = ''username'',
                     field_visible = Some (VisibleFun (visible_reads ''user'' ''email''))\<rparr>"
  let ?account = "\<lparr>forms_prop = Some [\<lparr>group_title = ''Account Details'',
                           group_fields =
                             [\<lparr>field_name = ''name'', field_visible = None\<rparr>, ?username]\<rparr>],
      fields_prop = None,
      additionalFieldProps = None, renderHeader = None, renderFooter = (None :: unit option)\<rparr>"
  have "JsonForm ?props =
          Inl (TypeError (''Cannot read properties of undefined (reading '' @ [CHR 0x27]
                          @ ''email'' @ [CHR 0x27] @ '')''))"
    using JsonForm_missing_additionalFieldProps_throws
      [of ?props ?field "''test''" "''email''"]
    by (simp add: form_fields_def)
  moreover have "JsonForm ?account =
          Inl (TypeError (''Cannot read properties of undefined (reading '' @ [CHR 0x27]
                          @ ''email'' @ [CHR 0x27] @ '')''))"
    using JsonForm_missing_additionalFieldProps_throws
      [of ?account ?username "''user''" "''email''"]
    by (simp add: form_fields_def)
  ultimately show ?thesis by simp
qed

section \<open>Properties of the custom performance metrics\<close>



end
